theory Spec2Isabelle
  imports Complex_Main
begin

section \<open>Data model\<close>

text \<open>
  A shallow embedding of \<^verbatim>\<open>timeseries.py\<close> and \<^verbatim>\<open>lazy.py\<close>.

  A number is modelled by its value, a real, and where the code depends on it by its
  kind: an integer object (a Python int, a \<^verbatim>\<open>numpy.int64\<close>) or a floating one (a Python
  float, a \<^verbatim>\<open>numpy.float64\<close>). An array is the list of the values of its entries together
  with its dtype. The embedding covers the entries that a double holds exactly and
  computes with them in exact arithmetic: the rounding of doubles, the wrap-around of
  64-bit integers in a subtraction, nan and the infinities are not part of it.

  Every exception the code can raise is a value of \<open>error\<close>; a method that mutates
  \<^verbatim>\<open>self\<close> returns the object after the call together with its outcome, so the state left
  behind by a raise is part of the model.
\<close>

datatype error =
    AssertionError      \<comment> \<open>the \<^verbatim>\<open>assert\<close> of \<^verbatim>\<open>TimeSeries.__init__\<close>\<close>
  | ValueError          \<comment> \<open>raised by \<^verbatim>\<open>__getitem__\<close> and \<^verbatim>\<open>__setitem__\<close>, and by numpy\<close>
  | IndexError          \<comment> \<open>an index out of range\<close>
  | ZeroDivisionError   \<comment> \<open>division of Python floats by zero\<close>
  | AttributeError      \<comment> \<open>lookup of an attribute the object does not have\<close>
  | TypeError           \<comment> \<open>a callable applied to the wrong arguments\<close>
  | NonFinite           \<comment> \<open>numpy division by zero: inf or nan, which the reals do not contain\<close>

text \<open>The dtype of an array: what \<^verbatim>\<open>np.array\<close> gives to integers and to floats.\<close>

datatype dtype = Int64 | Float64

text \<open>
  A number object: its kind and its value. The value of an integer object is a whole
  number.
\<close>

datatype pynum = IntObj real | FloatObj real

fun value_of :: "pynum \<Rightarrow> real" where
  "value_of (IntObj x) = x"
| "value_of (FloatObj x) = x"

fun is_integer :: "pynum \<Rightarrow> bool" where
  "is_integer (IntObj x) = True"
| "is_integer (FloatObj x) = False"

text \<open>
  A sequence passed as \<^verbatim>\<open>values\<close>: a Python list of number objects, or a numpy array,
  which has its dtype already.
\<close>

datatype pyseq = PyList "pynum list" | NdArray dtype "real list"

text \<open>\<^verbatim>\<open>len\<close> of a sequence.\<close>

fun seq_len :: "pyseq \<Rightarrow> nat" where
  "seq_len (PyList xs) = length xs"
| "seq_len (NdArray d vs) = length vs"

text \<open>
  \<^verbatim>\<open>np.array\<close> of a sequence: an array is taken as it is; a list becomes an array of
  integers when it is not empty and holds integer objects only, and an array of floats
  otherwise.
\<close>

fun array_dtype :: "pyseq \<Rightarrow> dtype" where
  "array_dtype (PyList xs) = (if xs \<noteq> [] \<and> list_all is_integer xs then Int64 else Float64)"
| "array_dtype (NdArray d vs) = d"

fun array_values :: "pyseq \<Rightarrow> real list" where
  "array_values (PyList xs) = map value_of xs"
| "array_values (NdArray d vs) = vs"

text \<open>
  The container: \<^verbatim>\<open>_times\<close> and \<^verbatim>\<open>_values\<close>, and the dtype of \<^verbatim>\<open>_values\<close>, the one array
  the code writes to. \<^verbatim>\<open>_times\<close> is only compared and searched, by value.
\<close>

record TimeSeries =
  ts_times :: "real list"
  ts_values :: "real list"
  ts_dtype :: dtype

text \<open>The invariant that the constructor establishes: one value per time.\<close>

definition paired :: "TimeSeries \<Rightarrow> bool" where
  "paired self = (length (ts_times self) = length (ts_values self))"

section \<open>TimeSeries\<close>

text \<open>Sequencing of computations that may raise.\<close>

definition bind :: "error + 'a \<Rightarrow> ('a \<Rightarrow> error + 'b) \<Rightarrow> error + 'b" where
  "bind m f = (case m of Inl e \<Rightarrow> Inl e | Inr x \<Rightarrow> f x)"

text \<open>
  The test \<^verbatim>\<open>if values==None\<close>. For \<^verbatim>\<open>None\<close> it holds and for a list it does not. For a
  numpy array the comparison is made entry by entry and gives an array of booleans, all
  false; its truth value is that of its one entry when it has exactly one, and asking
  for it raises otherwise (for the empty array since numpy 2.2).
\<close>

definition values_eq_None :: "pyseq option \<Rightarrow> error + bool" where
  "values_eq_None vals =
     (case vals of
        None \<Rightarrow> Inr True
      | Some (PyList xs) \<Rightarrow> Inr False
      | Some (NdArray d vs) \<Rightarrow> (if length vs = 1 then Inr False else Inl ValueError))"

text \<open>
  \<^verbatim>\<open>__init__(self, times=[], values=None)\<close>: the values default to \<^verbatim>\<open>np.zeros\<close>, an array
  of floats; the assertion compares the lengths; both sequences are stored as arrays.
  \<^verbatim>\<open>times\<close>, a list or an array, is given by the values of its entries.
\<close>

definition TimeSeries_init :: "real list \<Rightarrow> pyseq option \<Rightarrow> error + TimeSeries" where
  "TimeSeries_init tms vals =
     bind (values_eq_None vals) (\<lambda>is_None.
       (let vals' = (case vals of
                       None \<Rightarrow> NdArray Float64 (replicate (length tms) 0)
                     | Some s \<Rightarrow> (if is_None then NdArray Float64 (replicate (length tms) 0) else s))
        in if length tms = seq_len vals'
           then Inr \<lparr>ts_times = tms, ts_values = array_values vals', ts_dtype = array_dtype vals'\<rparr>
           else Inl AssertionError))"

text \<open>\<^verbatim>\<open>__len__\<close>\<close>

definition len :: "TimeSeries \<Rightarrow> nat" where
  "len self = length (ts_times self)"

text \<open>The property \<^verbatim>\<open>items\<close> and \<^verbatim>\<open>__eq__\<close>, which compares the items.\<close>

definition items :: "TimeSeries \<Rightarrow> (real \<times> real) list" where
  "items self = zip (ts_times self) (ts_values self)"

definition eq :: "TimeSeries \<Rightarrow> TimeSeries \<Rightarrow> bool" where
  "eq self ts = (items self = items ts)"

text \<open>
  \<^verbatim>\<open>np.where(self._times == time)[0]\<close>: the positions of the stored times equal to the
  query, in ascending order.
\<close>

definition where_eq :: "real list \<Rightarrow> real \<Rightarrow> nat list" where
  "where_eq tms time = filter (\<lambda>i. tms ! i = time) [0 ..< length tms]"

text \<open>Reading an array at a position, as Python does for a non-negative index.\<close>

definition at_index :: "real list \<Rightarrow> nat \<Rightarrow> error + real" where
  "at_index xs i = (if i < length xs then Inr (xs ! i) else Inl IndexError)"

text \<open>Reading an array at \<^verbatim>\<open>-1\<close>: the last element, IndexError on an empty array.\<close>

definition at_last :: "real list \<Rightarrow> error + real" where
  "at_last xs = (if xs = [] then Inl IndexError else Inr (last xs))"


text \<open>
  What a store into an array does to the number stored: an array of floats takes it as it is;
  an array of 64-bit integers takes it cut off towards zero, and the smallest integer
  when that is out of range (the result of the conversion on x86-64, which numpy stores
  with a warning).
\<close>

definition astype :: "dtype \<Rightarrow> real \<Rightarrow> real" where
  "astype d v =
     (case d of
        Float64 \<Rightarrow> v
      | Int64 \<Rightarrow>
          (let n = (if 0 \<le> v then \<lfloor>v\<rfloor> else \<lceil>v\<rceil>)
           in if - (2 ^ 63) \<le> n \<and> n < 2 ^ 63 then of_int n else - (2 ^ 63)))"

text \<open>
  \<^verbatim>\<open>__setitem__\<close>: \<^verbatim>\<open>self._values[index] = value\<close> with an index array stores the value,
  converted to the dtype of the array, at each position of the index array; numpy checks
  the positions before it writes. The value is a Python float, or an integer that a
  double holds exactly.
\<close>

definition setitem :: "TimeSeries \<Rightarrow> real \<Rightarrow> real \<Rightarrow> TimeSeries \<times> (error + unit)" where
  "setitem self time v =
     (let index = where_eq (ts_times self) time
      in if index = [] then (self, Inl ValueError)
         else if list_ex (\<lambda>i. length (ts_values self) \<le> i) index then (self, Inl IndexError)
         else (self\<lparr>ts_values :=
                       fold (\<lambda>i vs. vs[i := astype (ts_dtype self) v]) index (ts_values self)\<rparr>,
               Inr ()))"

text \<open>
  \<^verbatim>\<open>np.searchsorted(a, v, side='right')\<close> belongs to numpy, not to the repository. It is
  numpy's binary search for the insertion point after the entries equal to the key, for
  one key: the lower bound moves past the middle entry unless the key is below it.
  numpy promises the insertion point for a sorted array only.
\<close>

function binsearch_right :: "real list \<Rightarrow> real \<Rightarrow> nat \<Rightarrow> nat \<Rightarrow> nat" where
  "binsearch_right arr key min_idx max_idx =
     (if min_idx < max_idx
      then (let mid_idx = min_idx + (max_idx - min_idx) div 2
            in if key < arr ! mid_idx
               then binsearch_right arr key min_idx mid_idx
               else binsearch_right arr key (mid_idx + 1) max_idx)
      else min_idx)"
  by pat_completeness auto
termination
  by (relation "measure (\<lambda>(arr, key, min_idx, max_idx). max_idx - min_idx)") auto

declare binsearch_right.simps [simp del]

definition searchsorted_right :: "real list \<Rightarrow> real \<Rightarrow> nat" where
  "searchsorted_right arr key = binsearch_right arr key 0 (length arr)"

text \<open>An entry read from an array of the given dtype: a numpy scalar of that dtype.\<close>

fun element :: "dtype \<Rightarrow> real \<Rightarrow> pynum" where
  "element Int64 x = IntObj x"
| "element Float64 x = FloatObj x"

text \<open>
  The body of the loop of \<^verbatim>\<open>interpolate\<close> for one query time: the object appended to
  \<^verbatim>\<open>values\<close>, or the exception raised. Outside the stored times it is an entry of
  \<^verbatim>\<open>_values\<close>; between two of them it is a float. \<^verbatim>\<open>time_delta / val_delta\<close> divides
  Python floats and raises on a zero divisor; the division by \<^verbatim>\<open>slope\<close> is numpy's.
  The differences, the quotients and the sum are computed exactly here.
\<close>

definition interpolate_step :: "TimeSeries \<Rightarrow> real \<Rightarrow> error + pynum" where
  "interpolate_step self time =
     (let right_index = searchsorted_right (ts_times self) time
      in if right_index = len self
         then bind (at_last (ts_values self)) (\<lambda>v. Inr (element (ts_dtype self) v))
         else if right_index = 0
         then bind (at_index (ts_values self) 0) (\<lambda>v. Inr (element (ts_dtype self) v))
         else (let left_index = right_index - 1
               in bind (at_index (ts_times self) right_index) (\<lambda>t_right.
                  bind (at_index (ts_times self) left_index) (\<lambda>t_left.
                  bind (at_index (ts_values self) right_index) (\<lambda>v_right.
                  bind (at_index (ts_values self) left_index) (\<lambda>v_left.
                    (let time_delta = t_right - t_left;
                         val_delta = v_right - v_left
                     in if val_delta = 0 then Inl ZeroDivisionError
                        else (let slope = time_delta / val_delta
                              in if slope = 0 then Inl NonFinite
                                 else (let step = (time - t_left) / slope
                                       in Inr (FloatObj (v_left + step)))))))))))"

text \<open>The loop of \<^verbatim>\<open>interpolate\<close> over the query times, \<open>vals\<close> being the list built so far.\<close>

fun interpolate_loop :: "TimeSeries \<Rightarrow> real list \<Rightarrow> pynum list \<Rightarrow> error + pynum list" where
  "interpolate_loop self [] vals = Inr vals"
| "interpolate_loop self (time # tms) vals =
     (case interpolate_step self time of
        Inl e \<Rightarrow> Inl e
      | Inr v \<Rightarrow> interpolate_loop self tms (vals @ [v]))"

text \<open>\<^verbatim>\<open>interpolate\<close> ends with \<^verbatim>\<open>TimeSeries(times, values)\<close>, \<^verbatim>\<open>values\<close> being a list.\<close>

definition interpolate :: "TimeSeries \<Rightarrow> real list \<Rightarrow> error + TimeSeries" where
  "interpolate self tms =
     bind (interpolate_loop self tms []) (\<lambda>vals. TimeSeries_init tms (Some (PyList vals)))"

text \<open>
  The conventional formula of linear interpolation between the samples at \<open>left\<close> and
  \<open>left + 1\<close>, as the specification writes it:
  \<^verbatim>\<open>values[left] + (t - times[left]) * value_delta / time_delta\<close>.
\<close>

definition conventional_interpolation :: "real list \<Rightarrow> real list \<Rightarrow> nat \<Rightarrow> real \<Rightarrow> real" where
  "conventional_interpolation tms vals left t =
     vals ! left + (t - tms ! left) * (vals ! (left + 1) - vals ! left) / (tms ! (left + 1) - tms ! left)"

section \<open>LazyOperation\<close>

text \<open>
  A callable is held by reference. \<open>Lazy_func\<close> is the function that the property
  \<^verbatim>\<open>lazy\<close> defines; any other callable is a name \<open>Callable f\<close>, whose behaviour the
  environment of the evaluation gives.
\<close>

datatype 'f callable = Lazy_func | Callable 'f

text \<open>
  An object is either not a \<^verbatim>\<open>LazyOperation\<close> or a \<^verbatim>\<open>LazyOperation\<close>, which \<^verbatim>\<open>isinstance\<close>
  tells apart. A node holds its callable, the tuple of its positional arguments and the
  dictionary of its named arguments, in insertion order. A nested node belongs to the
  node that holds it.
\<close>

datatype ('f, 'v) pyobj = Value 'v | Deferred "('f, 'v) LazyOperation"
and ('f, 'v) LazyOperation =
  LazyOperation (func: "'f callable")
                (args: "('f, 'v) pyobj list")
                (kwargs: "(string \<times> ('f, 'v) pyobj) list")

text \<open>
  The environment: what each named callable does with its positional and named
  arguments. It returns an object, which may be a node, or raises; it has no other
  effect.
\<close>

type_synonym ('f, 'v) callables =
  "'f \<Rightarrow> ('f, 'v) pyobj list \<Rightarrow> (string \<times> ('f, 'v) pyobj) list \<Rightarrow> error + ('f, 'v) pyobj"

text \<open>
  A call. The function of \<^verbatim>\<open>lazy\<close> is \<^verbatim>\<open>def func(self): return self\<close>: it returns its one
  argument, given by position or under the name \<^verbatim>\<open>self\<close>, and any other call of it
  raises.
\<close>

definition call ::
  "('f, 'v) callables \<Rightarrow> 'f callable \<Rightarrow> ('f, 'v) pyobj list \<Rightarrow> (string \<times> ('f, 'v) pyobj) list \<Rightarrow>
   error + ('f, 'v) pyobj" where
  "call env c as kws =
     (case c of
        Callable f \<Rightarrow> env f as kws
      | Lazy_func \<Rightarrow>
          (case (as, kws) of
             ([self], []) \<Rightarrow> Inr self
           | ([], [(key, self)]) \<Rightarrow> (if key = ''self'' then Inr self else Inl TypeError)
           | _ \<Rightarrow> Inl TypeError))"

text \<open>
  The second loop of \<^verbatim>\<open>eval\<close> runs over the keys of \<^verbatim>\<open>self.__kwargs\<close>. Its body reads
  \<^verbatim>\<open>self.__kwarg\<close>, an attribute that \<^verbatim>\<open>__init__\<close> never sets (it sets \<^verbatim>\<open>__kwargs\<close>), so
  the first iteration raises.
\<close>

fun eval_kwargs :: "string list \<Rightarrow> error + unit" where
  "eval_kwargs [] = Inr ()"
| "eval_kwargs (key # keys) = Inl AttributeError"

text \<open>
  \<^verbatim>\<open>eval\<close>, with the node after the call. \<open>eval_args\<close> is the first loop: it returns the
  positional arguments as the loop leaves them (a nested node evaluated by the loop has
  been changed by its own \<^verbatim>\<open>eval\<close>) and \<^verbatim>\<open>arg_list\<close>, or the exception of the nested call
  that raised. An entry of \<^verbatim>\<open>arg_list\<close> is whatever the nested \<^verbatim>\<open>eval\<close> returned, a node
  included. After the loop \<^verbatim>\<open>self.__args\<close> is \<^verbatim>\<open>arg_list\<close>. The callable is reached only
  when the loop over the named arguments had nothing to run over.
\<close>

fun LazyOperation_eval ::
  "('f, 'v) callables \<Rightarrow> ('f, 'v) LazyOperation \<Rightarrow> ('f, 'v) LazyOperation \<times> (error + ('f, 'v) pyobj)"
and eval_args ::
  "('f, 'v) callables \<Rightarrow> ('f, 'v) pyobj list \<Rightarrow> ('f, 'v) pyobj list \<times> (error + ('f, 'v) pyobj list)" where
  "LazyOperation_eval env (LazyOperation f as kws) =
     (case eval_args env as of
        (as', Inl e) \<Rightarrow> (LazyOperation f as' kws, Inl e)
      | (as', Inr arg_list) \<Rightarrow>
          (case eval_kwargs (map fst kws) of
             Inl e \<Rightarrow> (LazyOperation f arg_list kws, Inl e)
           | Inr _ \<Rightarrow> (LazyOperation f arg_list kws, call env f arg_list kws)))"
| "eval_args env [] = ([], Inr [])"
| "eval_args env (Value v # as) =
     (case eval_args env as of
        (as', Inl e) \<Rightarrow> (Value v # as', Inl e)
      | (as', Inr arg_list) \<Rightarrow> (Value v # as', Inr (Value v # arg_list)))"
| "eval_args env (Deferred n # as) =
     (case LazyOperation_eval env n of
        (n', Inl e) \<Rightarrow> (Deferred n' # as, Inl e)
      | (n', Inr x) \<Rightarrow>
          (case eval_args env as of
             (as', Inl e) \<Rightarrow> (Deferred n' # as', Inl e)
           | (as', Inr arg_list) \<Rightarrow> (Deferred n' # as', Inr (x # arg_list))))"

text \<open>
  The property \<^verbatim>\<open>lazy\<close> of a container: \<^verbatim>\<open>LazyOperation(func, self)\<close>, the node of the
  local function with the container as only argument.
\<close>

definition lazy :: "TimeSeries \<Rightarrow> ('f, TimeSeries) LazyOperation" where
  "lazy self = LazyOperation Lazy_func [Value self] []"


definition example_callables :: "(string, int) callables" where
  "example_callables f as kws =
     (if f = ''five'' \<and> as = [] \<and> kws = [] then Inr (Value 5)
      else if f = ''make'' \<and> as = [] \<and> kws = []
      then Inr (Deferred (LazyOperation (Callable ''five'') [] []))
      else Inl TypeError)"

section \<open>Positions of a time\<close>

lemma set_where_eq: "set (where_eq tms t) = {i. i < length tms \<and> tms ! i = t}"
  by (auto simp: where_eq_def)

lemma where_eq_Nil: "where_eq tms t = [] \<longleftrightarrow> t \<notin> set tms"
proof -
  have "where_eq tms t = [] \<longleftrightarrow> set (where_eq tms t) = {}" by simp
  also have "\<dots> \<longleftrightarrow> (\<forall>i<length tms. tms ! i \<noteq> t)"
    unfolding set_where_eq by blast
  also have "\<dots> \<longleftrightarrow> t \<notin> set tms"
    unfolding in_set_conv_nth by blast
  finally show ?thesis .
qed



section \<open>Lookup and update\<close>

lemma length_fold_update: "length (fold (\<lambda>i vs. vs[i := v]) idx vs) = length vs"
  by (induction idx arbitrary: vs) simp_all

lemma nth_fold_update_other:
  "k \<notin> set idx \<Longrightarrow> fold (\<lambda>i vs. vs[i := v]) idx vs ! k = vs ! k"
  by (induction idx arbitrary: vs) simp_all




lemma setitem_missing: "t \<notin> set (ts_times self) \<Longrightarrow> setitem self t v = (self, Inl ValueError)"
  by (simp add: setitem_def where_eq_Nil)

lemma setitem_times: "ts_times (fst (setitem self t v)) = ts_times self"
  by (simp add: setitem_def Let_def)

lemma setitem_length: "length (ts_values (fst (setitem self t v))) = length (ts_values self)"
  by (simp add: setitem_def Let_def length_fold_update)

lemma setitem_paired: "paired self \<Longrightarrow> paired (fst (setitem self t v))"
  by (simp add: paired_def setitem_times setitem_length)

lemma setitem_other:
  assumes "i < length (ts_times self)" "ts_times self ! i \<noteq> t"
  shows "ts_values (fst (setitem self t v)) ! i = ts_values self ! i"
proof -
  from assms have "i \<notin> set (where_eq (ts_times self) t)" by (simp add: set_where_eq)
  then show ?thesis by (simp add: setitem_def Let_def nth_fold_update_other)
qed

lemma setitem_dtype: "ts_dtype (fst (setitem self t v)) = ts_dtype self"
  by (simp add: setitem_def Let_def)



section \<open>The insertion point\<close>

lemma binsearch_right_range:
  "min_idx \<le> max_idx \<Longrightarrow>
     min_idx \<le> binsearch_right arr key min_idx max_idx \<and>
     binsearch_right arr key min_idx max_idx \<le> max_idx"
proof (induction arr key min_idx max_idx rule: binsearch_right.induct)
  case (1 arr key min_idx max_idx)
  show ?case
  proof (cases "min_idx < max_idx")
    case False
    then have "binsearch_right arr key min_idx max_idx = min_idx"
      by (subst binsearch_right.simps) simp
    with "1.prems" show ?thesis by simp
  next
    case True
    define mid_idx where "mid_idx = min_idx + (max_idx - min_idx) div 2"
    with True have mid: "min_idx \<le> mid_idx" "mid_idx < max_idx" by simp_all
    show ?thesis
    proof (cases "key < arr ! mid_idx")
      case below: True
      have "binsearch_right arr key min_idx max_idx = binsearch_right arr key min_idx mid_idx"
        using True below by (subst binsearch_right.simps) (simp add: mid_idx_def Let_def)
      moreover have "min_idx \<le> binsearch_right arr key min_idx mid_idx \<and>
        binsearch_right arr key min_idx mid_idx \<le> mid_idx"
        using "1.IH"(1) [OF True mid_idx_def below] mid by simp
      ultimately show ?thesis using mid by simp
    next
      case above: False
      have "binsearch_right arr key min_idx max_idx = binsearch_right arr key (mid_idx + 1) max_idx"
        using True above by (subst binsearch_right.simps) (simp add: mid_idx_def Let_def)
      moreover have "mid_idx + 1 \<le> binsearch_right arr key (mid_idx + 1) max_idx \<and>
        binsearch_right arr key (mid_idx + 1) max_idx \<le> max_idx"
        using "1.IH"(2) [OF True mid_idx_def above] mid by simp
      ultimately show ?thesis using mid by simp
    qed
  qed
qed

text \<open>
  What the search has compared: the entry before the result is not above the key, the
  entry at the result is above it. This holds whether or not the array is sorted.
\<close>

lemma binsearch_right_neighbours:
  "min_idx \<le> max_idx \<Longrightarrow> max_idx \<le> length arr \<Longrightarrow>
   (min_idx = 0 \<or> arr ! (min_idx - 1) \<le> key) \<Longrightarrow>
   (max_idx = length arr \<or> key < arr ! max_idx) \<Longrightarrow>
     (binsearch_right arr key min_idx max_idx = 0 \<or>
        arr ! (binsearch_right arr key min_idx max_idx - 1) \<le> key) \<and>
     (binsearch_right arr key min_idx max_idx = length arr \<or>
        key < arr ! binsearch_right arr key min_idx max_idx)"
proof (induction arr key min_idx max_idx rule: binsearch_right.induct)
  case (1 arr key min_idx max_idx)
  show ?case
  proof (cases "min_idx < max_idx")
    case False
    with "1.prems" have eq: "max_idx = min_idx" by simp
    have "binsearch_right arr key min_idx max_idx = min_idx"
      using False by (subst binsearch_right.simps) simp
    with "1.prems" eq show ?thesis by simp
  next
    case True
    define mid_idx where "mid_idx = min_idx + (max_idx - min_idx) div 2"
    with True have mid: "min_idx \<le> mid_idx" "mid_idx < max_idx" by simp_all
    show ?thesis
    proof (cases "key < arr ! mid_idx")
      case below: True
      have "binsearch_right arr key min_idx max_idx = binsearch_right arr key min_idx mid_idx"
        using True below by (subst binsearch_right.simps) (simp add: mid_idx_def Let_def)
      moreover have "(binsearch_right arr key min_idx mid_idx = 0 \<or>
        arr ! (binsearch_right arr key min_idx mid_idx - 1) \<le> key) \<and>
       (binsearch_right arr key min_idx mid_idx = length arr \<or>
        key < arr ! binsearch_right arr key min_idx mid_idx)"
        using "1.IH"(1) [OF True mid_idx_def below] mid "1.prems" below by simp
      ultimately show ?thesis by simp
    next
      case above: False
      have "binsearch_right arr key min_idx max_idx = binsearch_right arr key (mid_idx + 1) max_idx"
        using True above by (subst binsearch_right.simps) (simp add: mid_idx_def Let_def)
      moreover have "(binsearch_right arr key (mid_idx + 1) max_idx = 0 \<or>
        arr ! (binsearch_right arr key (mid_idx + 1) max_idx - 1) \<le> key) \<and>
       (binsearch_right arr key (mid_idx + 1) max_idx = length arr \<or>
        key < arr ! binsearch_right arr key (mid_idx + 1) max_idx)"
        using "1.IH"(2) [OF True mid_idx_def above] mid "1.prems" above by simp
      ultimately show ?thesis by simp
    qed
  qed
qed

lemma searchsorted_right_le: "searchsorted_right arr key \<le> length arr"
  using binsearch_right_range [of 0 "length arr" arr key] by (simp add: searchsorted_right_def)

lemma searchsorted_right_neighbours:
  "(searchsorted_right arr key = 0 \<or> arr ! (searchsorted_right arr key - 1) \<le> key) \<and>
   (searchsorted_right arr key = length arr \<or> key < arr ! searchsorted_right arr key)"
  using binsearch_right_neighbours [of 0 "length arr" arr key] by (simp add: searchsorted_right_def)

text \<open>On a sorted array the result is 0 or the length exactly when the key is outside.\<close>

lemma searchsorted_right_end:
  assumes "sorted arr" "arr \<noteq> []"
  shows "searchsorted_right arr key = length arr \<longleftrightarrow> last arr \<le> key"
proof
  assume "searchsorted_right arr key = length arr"
  with searchsorted_right_neighbours [of arr key] assms(2) show "last arr \<le> key"
    by (simp add: last_conv_nth)
next
  assume l: "last arr \<le> key"
  show "searchsorted_right arr key = length arr"
  proof (rule ccontr)
    assume "searchsorted_right arr key \<noteq> length arr"
    with searchsorted_right_le [of arr key] searchsorted_right_neighbours [of arr key]
    have r: "searchsorted_right arr key < length arr" "key < arr ! searchsorted_right arr key"
      by simp_all
    from r(1) assms have "arr ! searchsorted_right arr key \<le> last arr"
      by (simp add: last_conv_nth sorted_nth_mono)
    with r(2) l show False by simp
  qed
qed

lemma searchsorted_right_start:
  assumes "sorted arr" "arr \<noteq> []"
  shows "searchsorted_right arr key = 0 \<longleftrightarrow> key < hd arr"
proof
  assume "searchsorted_right arr key = 0"
  with searchsorted_right_neighbours [of arr key] assms(2) show "key < hd arr"
    by (simp add: hd_conv_nth)
next
  assume h: "key < hd arr"
  show "searchsorted_right arr key = 0"
  proof (rule ccontr)
    assume n: "searchsorted_right arr key \<noteq> 0"
    with searchsorted_right_neighbours [of arr key]
    have r: "arr ! (searchsorted_right arr key - 1) \<le> key" by simp
    from n searchsorted_right_le [of arr key] assms
    have "arr ! 0 \<le> arr ! (searchsorted_right arr key - 1)"
      by (intro sorted_nth_mono) simp_all
    with r h assms(2) show False by (simp add: hd_conv_nth)
  qed
qed

lemma searchsorted_right_sorted:
  assumes "sorted arr"
  shows "(\<forall>i<searchsorted_right arr key. arr ! i \<le> key) \<and>
         (\<forall>i. searchsorted_right arr key \<le> i \<and> i < length arr \<longrightarrow> key < arr ! i)"
proof (intro conjI allI impI)
  fix i assume i: "i < searchsorted_right arr key"
  with searchsorted_right_neighbours [of arr key]
  have "arr ! (searchsorted_right arr key - 1) \<le> key" by simp
  moreover from i searchsorted_right_le [of arr key] assms
  have "arr ! i \<le> arr ! (searchsorted_right arr key - 1)"
    by (intro sorted_nth_mono) simp_all
  ultimately show "arr ! i \<le> key" by simp
next
  fix i assume i: "searchsorted_right arr key \<le> i \<and> i < length arr"
  with searchsorted_right_neighbours [of arr key]
  have "key < arr ! searchsorted_right arr key" by simp
  moreover from i assms have "arr ! searchsorted_right arr key \<le> arr ! i"
    by (intro sorted_nth_mono) simp_all
  ultimately show "key < arr ! i" by simp
qed

section \<open>Interpolation\<close>

lemma value_of_element: "value_of (element d x) = x"
  by (cases d) simp_all

lemma interpolate_step_right:
  assumes "ts_values self \<noteq> []" "searchsorted_right (ts_times self) t = len self"
  shows "interpolate_step self t = Inr (element (ts_dtype self) (last (ts_values self)))"
  using assms by (simp add: interpolate_step_def at_last_def bind_def)

lemma interpolate_step_left:
  assumes "ts_values self \<noteq> []" "ts_times self \<noteq> []" "searchsorted_right (ts_times self) t = 0"
  shows "interpolate_step self t = Inr (element (ts_dtype self) (hd (ts_values self)))"
  using assms by (simp add: interpolate_step_def at_index_def len_def hd_conv_nth bind_def)

lemma interpolate_loop_Inr:
  "interpolate_loop self tms acc = Inr vals \<longleftrightarrow>
     (\<exists>vs. vals = acc @ vs \<and> list_all2 (\<lambda>t v. interpolate_step self t = Inr v) tms vs)"
proof (induction tms arbitrary: acc)
  case Nil
  then show ?case by auto
next
  case (Cons t tms)
  show ?case
  proof (cases "interpolate_step self t")
    case (Inl e)
    then show ?thesis by (simp add: list_all2_Cons1)
  next
    case (Inr v)
    then show ?thesis by (auto simp: Cons.IH list_all2_Cons1)
  qed
qed

lemma interpolate_Inr:
  "interpolate self tms = Inr r \<longleftrightarrow>
     (\<exists>vals. list_all2 (\<lambda>t v. interpolate_step self t = Inr v) tms vals \<and>
        r = \<lparr>ts_times = tms, ts_values = map value_of vals, ts_dtype = array_dtype (PyList vals)\<rparr>)"
proof
  assume "interpolate self tms = Inr r"
  then obtain vals where l: "interpolate_loop self tms [] = Inr vals"
    and i: "TimeSeries_init tms (Some (PyList vals)) = Inr r"
    by (auto simp: interpolate_def bind_def split: sum.splits)
  from l have a: "list_all2 (\<lambda>t v. interpolate_step self t = Inr v) tms vals"
    by (simp add: interpolate_loop_Inr)
  then have "length tms = length vals" by (rule list_all2_lengthD)
  with i have "r = \<lparr>ts_times = tms, ts_values = map value_of vals, ts_dtype = array_dtype (PyList vals)\<rparr>"
    by (simp add: TimeSeries_init_def values_eq_None_def bind_def)
  with a show "\<exists>vals. list_all2 (\<lambda>t v. interpolate_step self t = Inr v) tms vals \<and>
        r = \<lparr>ts_times = tms, ts_values = map value_of vals, ts_dtype = array_dtype (PyList vals)\<rparr>"
    by blast
next
  assume "\<exists>vals. list_all2 (\<lambda>t v. interpolate_step self t = Inr v) tms vals \<and>
        r = \<lparr>ts_times = tms, ts_values = map value_of vals, ts_dtype = array_dtype (PyList vals)\<rparr>"
  then obtain vals where a: "list_all2 (\<lambda>t v. interpolate_step self t = Inr v) tms vals"
    and r: "r = \<lparr>ts_times = tms, ts_values = map value_of vals, ts_dtype = array_dtype (PyList vals)\<rparr>"
    by blast
  from a have "interpolate_loop self tms [] = Inr vals"
    by (simp add: interpolate_loop_Inr)
  moreover from a have "length tms = length vals" by (rule list_all2_lengthD)
  ultimately show "interpolate self tms = Inr r"
    by (simp add: r interpolate_def bind_def TimeSeries_init_def values_eq_None_def)
qed

lemma interpolate_paired: "interpolate self tms = Inr r \<Longrightarrow> paired r"
  by (auto simp: interpolate_Inr paired_def dest: list_all2_lengthD)

lemma interpolate_nth:
  assumes "interpolate self tms = Inr r" "k < length tms"
  shows "\<exists>x. interpolate_step self (tms ! k) = Inr x \<and> value_of x = ts_values r ! k"
proof -
  from assms(1) obtain vals where a: "list_all2 (\<lambda>t v. interpolate_step self t = Inr v) tms vals"
    and r: "ts_values r = map value_of vals"
    by (auto simp: interpolate_Inr)
  from a have "length tms = length vals" by (rule list_all2_lengthD)
  with list_all2_nthD [OF a assms(2)] assms(2) r show ?thesis by simp
qed

section \<open>Evaluation of a node\<close>





lemma eval_raises_on_kwargs:
  "kws \<noteq> [] \<Longrightarrow> snd (LazyOperation_eval env (LazyOperation f as kws)) =
     (case snd (eval_args env as) of Inl e \<Rightarrow> Inl e | Inr xs \<Rightarrow> Inl AttributeError)"
  by (cases kws) (auto split: prod.splits sum.splits)




text \<open>
  With no named arguments, \<open>LazyOperation_eval\<close> applies the callable to the positional
  arguments resolved from left to right, each nested node by its own evaluation.
\<close>

lemma eval_positional:
  "snd (LazyOperation_eval env (LazyOperation f as [])) =
     (case snd (eval_args env as) of Inl e \<Rightarrow> Inl e | Inr xs \<Rightarrow> call env f xs [])"
  by (auto split: prod.splits sum.splits)

text \<open>
  A callable may return a node. The node that holds the result of such a call evaluates
  it on the next call: here the first evaluation returns the node made by \<open>make\<close> and
  the second one returns 5.
\<close>

lemma eval_of_returned_node:
  "LazyOperation_eval example_callables
     (LazyOperation Lazy_func [Deferred (LazyOperation (Callable ''make'') [] [])] []) =
     (LazyOperation Lazy_func [Deferred (LazyOperation (Callable ''five'') [] [])] [],
      Inr (Deferred (LazyOperation (Callable ''five'') [] []))) \<and>
   LazyOperation_eval example_callables
     (LazyOperation Lazy_func [Deferred (LazyOperation (Callable ''five'') [] [])] []) =
     (LazyOperation Lazy_func [Value 5] [], Inr (Value 5))"
  by (simp add: call_def example_callables_def)

section \<open>Claim on construction\<close>

lemma init_paired: "TimeSeries_init tms vals = Inr self \<Longrightarrow> paired self"
proof (cases vals)
  case None
  assume "TimeSeries_init tms vals = Inr self"
  with None show ?thesis
    by (auto simp: TimeSeries_init_def values_eq_None_def bind_def paired_def Let_def)
next
  case (Some s)
  assume "TimeSeries_init tms vals = Inr self"
  with Some show ?thesis
    by (cases s)
       (auto simp: TimeSeries_init_def values_eq_None_def bind_def paired_def Let_def
             split: if_splits)
qed

text \<open>
  When the values are given as a list, construction fails with the assertion error exactly
  when the lengths differ, and otherwise stores both sequences as given, so that the
  items pair them position by position.
\<close>

lemma init_list:
  "(length tms \<noteq> length xs \<longrightarrow> TimeSeries_init tms (Some (PyList xs)) = Inl AssertionError) \<and>
   (length tms = length xs \<longrightarrow>
      TimeSeries_init tms (Some (PyList xs)) =
        Inr \<lparr>ts_times = tms, ts_values = map value_of xs, ts_dtype = array_dtype (PyList xs)\<rparr> \<and>
      items \<lparr>ts_times = tms, ts_values = map value_of xs, ts_dtype = array_dtype (PyList xs)\<rparr> =
        zip tms (map value_of xs))"
  by (simp add: TimeSeries_init_def values_eq_None_def bind_def items_def)

text \<open>
  C7. The claim is that construction fails with the assertion error for every pair of
  sequences of different lengths and succeeds for every pair of equal lengths. The code
  does not when the values are a numpy array of two or more entries, as in the tests of
  the repository: the test \<^verbatim>\<open>values==None\<close> then raises the value error before the
  assertion is reached, whatever the two lengths are.
\<close>

theorem init_ndarray_raises:
  "2 \<le> length vs \<Longrightarrow> TimeSeries_init tms (Some (NdArray d vs)) = Inl ValueError"
  by (simp add: TimeSeries_init_def values_eq_None_def bind_def)

theorem init_ndarray_raises_witness:
  "TimeSeries_init [0, 1, 2] (Some (NdArray Float64 [1 / 2, 1 / 4])) = Inl ValueError \<and>
   TimeSeries_init [0, 1, 2] (Some (NdArray Float64 [1 / 2, 1 / 4, 1 / 8])) = Inl ValueError"
  using init_ndarray_raises [of "[1 / 2, 1 / 4]" "[0, 1, 2]" Float64]
    init_ndarray_raises [of "[1 / 2, 1 / 4, 1 / 8]" "[0, 1, 2]" Float64]
  by simp

section \<open>Claims on lookup and update\<close>







text \<open>
  C10. \<open>setitem\<close> leaves the stored times as they are and keeps the number of values;
  the value at every position whose time differs from the query time is the one it was;
  and when no stored time equals the query time, the call raises the value error and the
  container is the one it was.
\<close>

theorem setitem_frame:
  "ts_times (fst (setitem self t v)) = ts_times self \<and>
   length (ts_values (fst (setitem self t v))) = length (ts_values self) \<and>
   (\<forall>i<length (ts_times self). ts_times self ! i \<noteq> t \<longrightarrow>
      ts_values (fst (setitem self t v)) ! i = ts_values self ! i) \<and>
   (t \<notin> set (ts_times self) \<longrightarrow> setitem self t v = (self, Inl ValueError))"
  by (simp add: setitem_times setitem_length setitem_other setitem_missing)

theorem setitem_frame_witness:
  "setitem \<lparr>ts_times = [1, 2, 1], ts_values = [10, 20, 30], ts_dtype = Int64\<rparr> 1 7 =
     (\<lparr>ts_times = [1, 2, 1], ts_values = [7, 20, 7], ts_dtype = Int64\<rparr>, Inr ()) \<and>
   [1, 2, 1] ! 1 \<noteq> (1 :: real) \<and>
   3 \<notin> set (ts_times \<lparr>ts_times = [1, 2, 1], ts_values = [10, 20, 30], ts_dtype = Int64\<rparr>) \<and>
   setitem \<lparr>ts_times = [1, 2, 1], ts_values = [10, 20, 30], ts_dtype = Int64\<rparr> 3 7 =
     (\<lparr>ts_times = [1, 2, 1], ts_values = [10, 20, 30], ts_dtype = Int64\<rparr>, Inl ValueError)"
  using setitem_frame [of "\<lparr>ts_times = [1, 2, 1], ts_values = [10, 20, 30], ts_dtype = Int64\<rparr>" 1 7]
    setitem_frame [of "\<lparr>ts_times = [1, 2, 1], ts_values = [10, 20, 30], ts_dtype = Int64\<rparr>" 3 7]
  by (simp add: setitem_def where_eq_def astype_def)

section \<open>Interpolation between two stored times\<close>

text \<open>
  Between two stored times the model computes, in exact arithmetic,
  \<^verbatim>\<open>values[left] + (t - times[left]) / (time_delta / val_delta)\<close>, which in exact arithmetic
  is the value of the conventional formula: dividing by the slope
  \<^verbatim>\<open>time_delta / val_delta\<close> is multiplying by \<^verbatim>\<open>val_delta / time_delta\<close>. Whether
  the doubles that the code computes by the two formulas are the same depends on their
  rounding, which is not modelled.
\<close>

lemma interpolate_step_interior:
  assumes p: "paired self"
    and r: "0 < searchsorted_right (ts_times self) t" "searchsorted_right (ts_times self) t < len self"
    and vd: "ts_values self ! searchsorted_right (ts_times self) t \<noteq>
             ts_values self ! (searchsorted_right (ts_times self) t - 1)"
  shows "interpolate_step self t =
    Inr (FloatObj (ts_values self ! (searchsorted_right (ts_times self) t - 1) +
         (t - ts_times self ! (searchsorted_right (ts_times self) t - 1)) /
         ((ts_times self ! searchsorted_right (ts_times self) t -
           ts_times self ! (searchsorted_right (ts_times self) t - 1)) /
          (ts_values self ! searchsorted_right (ts_times self) t -
           ts_values self ! (searchsorted_right (ts_times self) t - 1)))))"
proof -
  define i where "i = searchsorted_right (ts_times self) t"
  from r have i: "0 < i" "i < length (ts_times self)" by (simp_all add: i_def len_def)
  with p have iv: "i < length (ts_values self)" by (simp add: paired_def)
  from i iv have i1: "i - 1 < length (ts_times self)" "i - 1 < length (ts_values self)" by simp_all
  from searchsorted_right_neighbours [of "ts_times self" t] i
  have "ts_times self ! (i - 1) \<le> t" "t < ts_times self ! i" by (simp_all add: i_def)
  then have td: "ts_times self ! i - ts_times self ! (i - 1) \<noteq> 0" by simp
  from vd have vd': "ts_values self ! i - ts_values self ! (i - 1) \<noteq> 0" by (simp add: i_def)
  have "interpolate_step self t =
    Inr (FloatObj (ts_values self ! (i - 1) + (t - ts_times self ! (i - 1)) /
         ((ts_times self ! i - ts_times self ! (i - 1)) / (ts_values self ! i - ts_values self ! (i - 1)))))"
    unfolding interpolate_step_def i_def [symmetric]
    using i iv i1 td vd' by (simp add: len_def at_index_def bind_def Let_def)
  then show ?thesis by (simp add: i_def)
qed

lemma exact_arithmetic_conventional:
  assumes "paired self"
    and "0 < searchsorted_right (ts_times self) t"
    and "searchsorted_right (ts_times self) t < len self"
    and "ts_values self ! searchsorted_right (ts_times self) t \<noteq>
         ts_values self ! (searchsorted_right (ts_times self) t - 1)"
  shows "interpolate_step self t =
    Inr (FloatObj (conventional_interpolation (ts_times self) (ts_values self)
           (searchsorted_right (ts_times self) t - 1) t))"
  using assms(2) unfolding interpolate_step_interior [OF assms] conventional_interpolation_def
  by simp

section \<open>Claims on interpolation\<close>

text \<open>
  C2. For the container of the times 0, 5, 10 and the values 1, 2, 3, \<open>interpolate\<close> at
  the single query time 1 returns the container of the time 1 and the value 1.2, which
  \<open>eq\<close> accepts as equal to the container built from these two lists.
\<close>

theorem interpolate_example:
  "TimeSeries_init [0, 5, 10] (Some (PyList [IntObj 1, IntObj 2, IntObj 3])) =
     Inr \<lparr>ts_times = [0, 5, 10], ts_values = [1, 2, 3], ts_dtype = Int64\<rparr> \<and>
   interpolate \<lparr>ts_times = [0, 5, 10], ts_values = [1, 2, 3], ts_dtype = Int64\<rparr> [1] =
     Inr \<lparr>ts_times = [1], ts_values = [12 / 10], ts_dtype = Float64\<rparr> \<and>
   TimeSeries_init [1] (Some (PyList [FloatObj (12 / 10)])) =
     Inr \<lparr>ts_times = [1], ts_values = [12 / 10], ts_dtype = Float64\<rparr> \<and>
   eq \<lparr>ts_times = [1], ts_values = [12 / 10], ts_dtype = Float64\<rparr>
      \<lparr>ts_times = [1], ts_values = [12 / 10], ts_dtype = Float64\<rparr>"
proof -
  have s: "searchsorted_right [0, 5, 10] 1 = 1"
    by (simp add: searchsorted_right_def binsearch_right.simps)
  show ?thesis
    by (simp add: s interpolate_def interpolate_step_def len_def at_index_def bind_def
        TimeSeries_init_def values_eq_None_def eq_def)
qed

text \<open>
  C3. In a non-empty container, a query time whose insertion point is the sample count
  gets the last stored value and a query time whose insertion point is 0 gets the first
  stored value. With sorted stored times the first is the case of every query time at or
  beyond the last stored time and the second of every query time before the first stored
  time. The container that \<open>interpolate\<close> returns holds these values at the positions of
  such query times.
\<close>

theorem interpolate_flat_outside:
  assumes "paired self" and "ts_times self \<noteq> []"
  shows "(searchsorted_right (ts_times self) t = len self \<longrightarrow>
            interpolate_step self t = Inr (element (ts_dtype self) (last (ts_values self)))) \<and>
         (searchsorted_right (ts_times self) t = 0 \<longrightarrow>
            interpolate_step self t = Inr (element (ts_dtype self) (hd (ts_values self)))) \<and>
         (sorted (ts_times self) \<and> last (ts_times self) \<le> t \<longrightarrow>
            interpolate_step self t = Inr (element (ts_dtype self) (last (ts_values self)))) \<and>
         (sorted (ts_times self) \<and> t < hd (ts_times self) \<longrightarrow>
            interpolate_step self t = Inr (element (ts_dtype self) (hd (ts_values self)))) \<and>
         (\<forall>r k. interpolate self tms = Inr r \<and> k < length tms \<longrightarrow>
            (searchsorted_right (ts_times self) (tms ! k) = len self \<longrightarrow>
               ts_values r ! k = last (ts_values self)) \<and>
            (searchsorted_right (ts_times self) (tms ! k) = 0 \<longrightarrow>
               ts_values r ! k = hd (ts_values self)))"
proof -
  from assms have ne: "ts_values self \<noteq> []" by (auto simp: paired_def)
  have right: "interpolate_step self q = Inr (element (ts_dtype self) (last (ts_values self)))"
    if "searchsorted_right (ts_times self) q = len self" for q
    using ne that by (rule interpolate_step_right)
  have left: "interpolate_step self q = Inr (element (ts_dtype self) (hd (ts_values self)))"
    if "searchsorted_right (ts_times self) q = 0" for q
    using ne assms(2) that by (rule interpolate_step_left)
  have "ts_values r ! k = last (ts_values self)"
    if "interpolate self tms = Inr r" "k < length tms"
       "searchsorted_right (ts_times self) (tms ! k) = len self" for r k
  proof -
    from interpolate_nth [OF that(1,2)] obtain x
      where "interpolate_step self (tms ! k) = Inr x" "value_of x = ts_values r ! k" by blast
    with right [OF that(3)] show ?thesis by (auto simp: value_of_element)
  qed
  moreover have "ts_values r ! k = hd (ts_values self)"
    if "interpolate self tms = Inr r" "k < length tms"
       "searchsorted_right (ts_times self) (tms ! k) = 0" for r k
  proof -
    from interpolate_nth [OF that(1,2)] obtain x
      where "interpolate_step self (tms ! k) = Inr x" "value_of x = ts_values r ! k" by blast
    with left [OF that(3)] show ?thesis by (auto simp: value_of_element)
  qed
  ultimately show ?thesis
    using right left assms(2)
    by (simp add: searchsorted_right_end searchsorted_right_start len_def)
qed

theorem interpolate_flat_outside_witness:
  "paired \<lparr>ts_times = [0, 5, 10], ts_values = [1, 2, 3], ts_dtype = Int64\<rparr> \<and>
   ts_times \<lparr>ts_times = [0, 5, 10], ts_values = [1, 2, 3], ts_dtype = Int64\<rparr> \<noteq> [] \<and>
   sorted (ts_times \<lparr>ts_times = [0, 5, 10], ts_values = [1, 2, 3], ts_dtype = Int64\<rparr>) \<and>
   searchsorted_right [0, 5, 10] 100 =
     len \<lparr>ts_times = [0, 5, 10], ts_values = [1, 2, 3], ts_dtype = Int64\<rparr> \<and>
   searchsorted_right [0, 5, 10] (- 100) = 0 \<and>
   interpolate_step \<lparr>ts_times = [0, 5, 10], ts_values = [1, 2, 3], ts_dtype = Int64\<rparr> 100 =
     Inr (IntObj 3) \<and>
   interpolate_step \<lparr>ts_times = [0, 5, 10], ts_values = [1, 2, 3], ts_dtype = Int64\<rparr> (- 100) =
     Inr (IntObj 1) \<and>
   interpolate \<lparr>ts_times = [0, 5, 10], ts_values = [1, 2, 3], ts_dtype = Int64\<rparr> [- 100, 100] =
     Inr \<lparr>ts_times = [- 100, 100], ts_values = [1, 3], ts_dtype = Int64\<rparr>"
proof -
  have s: "searchsorted_right [0, 5, 10] 100 = 3" "searchsorted_right [0, 5, 10] (- 100) = 0"
    by (simp_all add: searchsorted_right_def binsearch_right.simps)
  have i: "interpolate \<lparr>ts_times = [0, 5, 10], ts_values = [1, 2, 3], ts_dtype = Int64\<rparr> [- 100, 100] =
     Inr \<lparr>ts_times = [- 100, 100], ts_values = [1, 3], ts_dtype = Int64\<rparr>"
    by (simp add: s interpolate_def interpolate_step_def len_def at_index_def at_last_def bind_def
        TimeSeries_init_def values_eq_None_def)
  show ?thesis
    using interpolate_flat_outside
        [of "\<lparr>ts_times = [0, 5, 10], ts_values = [1, 2, 3], ts_dtype = Int64\<rparr>" 100 "[- 100, 100]"]
      interpolate_flat_outside
        [of "\<lparr>ts_times = [0, 5, 10], ts_values = [1, 2, 3], ts_dtype = Int64\<rparr>" "- 100" "[- 100, 100]"]
    by (simp add: s i paired_def len_def)
qed

section \<open>Claims on deferred evaluation\<close>

text \<open>
  C4. The claim is that evaluation resolves the named arguments too and returns the result
  of the callable for every node with named arguments. The code does not: for a node
  with at least one named argument the evaluation never returns. When the positional
  arguments resolve it raises the attribute error, without calling the callable; else it
  raises what the positional argument raised.
\<close>

theorem eval_named_arguments_raise:
  "snd (LazyOperation_eval env (LazyOperation f as ((key, a) # kws))) =
     (case snd (eval_args env as) of Inl e \<Rightarrow> Inl e | Inr xs \<Rightarrow> Inl AttributeError) \<and>
   snd (LazyOperation_eval env (LazyOperation f as ((key, a) # kws))) \<noteq> Inr r \<and>
   snd (LazyOperation_eval env (LazyOperation f [Value x] [(key, Value y)])) = Inl AttributeError"
  by (auto split: prod.splits sum.splits)




text \<open>
  C9. The node that \<open>lazy\<close> returns holds the function that returns its one argument,
  applied to the container; evaluating it returns the container itself, which \<open>eq\<close>
  accepts as equal to the original, and leaves the node as it was.
\<close>

theorem lazy_round_trip:
  "call env (func (lazy self)) [x] [] = Inr x \<and>
   args (lazy self) = [Value self] \<and>
   kwargs (lazy self) = [] \<and>
   LazyOperation_eval env (lazy self) = (lazy self, Inr (Value self)) \<and>
   (\<exists>r. snd (LazyOperation_eval env (lazy self)) = Inr (Value r) \<and> eq self r)"
  by (simp add: lazy_def call_def eq_def)

end
